theory Spec2Isabelle
  imports Main "HOL-Library.Sublist"
begin

section \<open>The component-testing mount bridge (playwright-ct-core, mount.ts)\<close>

text \<open>
  The test process (the controller) builds a component descriptor, replaces the
  functions in it by string tokens and records them in the module-level array
  \<open>boundCallbacksForMount\<close>; the page (the remote context) turns the tokens back
  into closures that call the exposed function \<open>__ct_dispatch\<close>.

  JavaScript values are modelled as finite trees: an object (or array) is the list
  of its own enumerable string-keyed properties in the order in which
  \<open>Object.entries\<close> yields them (array indices first). No object is reachable along two paths and there
  are no cycles, getters, symbols or frozen objects in the model. A function is an
  opaque identity; a number is an integer, NaN, or another number (a fraction or
  an infinity) named by its text.
\<close>

subsection \<open>Values\<close>

datatype number = IntNum int | NaN | OtherNum string

datatype func =
    Fn nat
  | Dispatcher number

text \<open>
  \<open>Fn n\<close> is a function of the test process, named by \<open>n\<close>.
  \<open>Dispatcher ordinal\<close> is the closure
  \<^verbatim>\<open>(...args) => { window['__ct_dispatch'](ordinal, args); }\<close> built in the page.
\<close>

datatype jsval =
    VUndefined
  | VNull
  | VBool bool
  | VNum number
  | VStr string
  | VFun func
  | VObj "(string \<times> jsval) list"

type_synonym obj = "(string \<times> jsval) list"

datatype error = TypeError | Rejected string

subsection \<open>Decimal numerals and the order of properties\<close>

definition digit_char :: "nat \<Rightarrow> char" where
  "digit_char d = ''0123456789'' ! d"

text \<open>The string of a non-negative integer, as string concatenation with a number gives it.\<close>

fun decimal :: "nat \<Rightarrow> string" where
  "decimal n = (if n < 10 then [digit_char n] else decimal (n div 10) @ [digit_char (n mod 10)])"

declare decimal.simps [simp del]

text \<open>The number written by a string of decimal digits.\<close>

definition digit_value :: "char \<Rightarrow> nat" where
  "digit_value c = length (takeWhile (\<lambda>d. d \<noteq> c) ''0123456789'')"

definition decimal_value :: "string \<Rightarrow> nat" where
  "decimal_value s = foldl (\<lambda>n c. 10 * n + digit_value c) 0 s"

text \<open>
  A key is an array index when it is the decimal numeral, without leading zeros, of
  an integer below \<open>2^32 - 1\<close>. The runtime lists the properties of an object with
  the array indices first, in ascending order, and the other keys after them in
  the order of their creation; \<open>Object.entries\<close> and the spread follow that order,
  and the list that models an object is kept in it.
\<close>

definition is_array_index :: "string \<Rightarrow> bool" where
  "is_array_index key =
     (key \<noteq> [] \<and> list_all (\<lambda>c. c \<in> set ''0123456789'') key \<and>
      (key = ''0'' \<or> hd key \<noteq> CHR ''0'') \<and> decimal_value key < 4294967295)"

fun replace_prop :: "obj \<Rightarrow> string \<Rightarrow> jsval \<Rightarrow> obj" where
  "replace_prop [] key v = []"
| "replace_prop ((k, w) # rest) key v =
     (if k = key then (key, v) # rest else (k, w) # replace_prop rest key v)"

fun insert_index :: "obj \<Rightarrow> string \<Rightarrow> jsval \<Rightarrow> obj" where
  "insert_index [] key v = [(key, v)]"
| "insert_index ((k, w) # rest) key v =
     (if is_array_index k \<and> decimal_value k < decimal_value key
      then (k, w) # insert_index rest key v
      else (key, v) # (k, w) # rest)"

text \<open>
  \<open>object[key] = value\<close>, and the definition of a property by an object literal or
  a spread: an existing property keeps its place; a new array index goes to its
  place among the array indices; any other new key goes last.
\<close>

definition set_prop :: "obj \<Rightarrow> string \<Rightarrow> jsval \<Rightarrow> obj" where
  "set_prop object key v =
     (if key \<in> fst ` set object then replace_prop object key v
      else if is_array_index key then insert_index object key v
      else object @ [(key, v)])"

text \<open>
  \<open>value.key\<close> for the keys the bridge reads (\<open>__pw_type\<close>, \<open>hooksConfig\<close>): reading
  a property of \<open>undefined\<close> or \<open>null\<close> throws a TypeError, a missing property
  reads as \<open>undefined\<close>, and no primitive or function has these properties.
\<close>

fun get_prop :: "jsval \<Rightarrow> string \<Rightarrow> error + jsval" where
  "get_prop VUndefined key = Inl TypeError"
| "get_prop VNull key = Inl TypeError"
| "get_prop (VObj es) key = (case map_of es key of None \<Rightarrow> Inr VUndefined | Some v \<Rightarrow> Inr v)"
| "get_prop v key = Inr VUndefined"

subsection \<open>Tokens\<close>

definition pw_func_prefix :: string where
  "pw_func_prefix = ''__pw_func_''"

definition token :: "nat \<Rightarrow> string" where
  "token n = pw_func_prefix @ decimal n"

subsection \<open>The descriptor builder\<close>

text \<open>
  The own enumerable properties that the spread \<open>...options\<close> copies: those of an
  object, the indexed characters of a string, nothing for any other value. They
  are defined on the target one after the other, in their order.
\<close>

fun own_entries :: "jsval \<Rightarrow> obj" where
  "own_entries (VObj es) = es"
| "own_entries (VStr s) = map (\<lambda>i. (decimal i, VStr [s ! i])) [0..<length s]"
| "own_entries v = []"

definition spread :: "obj \<Rightarrow> jsval \<Rightarrow> obj" where
  "spread target source = foldl (\<lambda>acc (key, v). set_prop acc key v) target (own_entries source)"

text \<open>A default parameter value replaces \<open>undefined\<close> only.\<close>

definition default_options :: "jsval \<Rightarrow> jsval" where
  "default_options options = (if options = VUndefined then VObj [] else options)"

text \<open>
  \<^verbatim>\<open>function createComponent(component, options = {}) {
    if (component.__pw_type === 'jsx') return component;
    return { __pw_type: 'object-component', type: component, ...options };
  }\<close>
\<close>

definition createComponent :: "jsval \<Rightarrow> jsval \<Rightarrow> error + jsval" where
  "createComponent component options =
     (case get_prop component ''__pw_type'' of
        Inl e \<Rightarrow> Inl e
      | Inr t \<Rightarrow>
          if t = VStr ''jsx'' then Inr component
          else Inr (VObj (spread [(''__pw_type'', VStr ''object-component''), (''type'', component)]
                            (default_options options))))"

text \<open>
  \<^verbatim>\<open>function isJsxComponent(component) {
    return typeof component === 'object' && component && component.__pw_type === 'jsx';
  }\<close>
\<close>

fun isJsxComponent :: "jsval \<Rightarrow> bool" where
  "isJsxComponent (VObj es) = (map_of es ''__pw_type'' = Some (VStr ''jsx''))"
| "isJsxComponent v = False"

subsection \<open>Marshalling functions in the test process\<close>

text \<open>
  \<^verbatim>\<open>function wrapFunctions(object, page, callbacks) {
    for (const [key, value] of Object.entries(object)) {
      const type = typeof value;
      if (type === 'function') {
        const functionName = '__pw_func_' + callbacks.length;
        callbacks.push(value);
        object[key] = functionName;
      } else if (type === 'object' && value) {
        wrapFunctions(value, page, callbacks);
      }
    }
  }\<close>
  \<open>wrapLoop\<close> is the loop: its first argument is what remains of the entries that
  \<open>Object.entries\<close> listed before the loop began, its second the object as mutated
  so far. The nested object mutated by the recursive call is the one the property
  still holds. The result is the mutated object and the extended array.
\<close>

fun wrapFunctions :: "obj \<Rightarrow> func list \<Rightarrow> obj \<times> func list"
  and wrapLoop :: "obj \<Rightarrow> obj \<Rightarrow> func list \<Rightarrow> obj \<times> func list"
where
  "wrapFunctions object callbacks = wrapLoop object object callbacks"
| "wrapLoop [] object callbacks = (object, callbacks)"
| "wrapLoop ((key, VFun f) # entries) object callbacks =
     wrapLoop entries (set_prop object key (VStr (token (length callbacks)))) (callbacks @ [f])"
| "wrapLoop ((key, VObj es) # entries) object callbacks =
     (case wrapFunctions es callbacks of
        (es', callbacks') \<Rightarrow> wrapLoop entries (set_prop object key (VObj es')) callbacks')"
| "wrapLoop ((key, v) # entries) object callbacks = wrapLoop entries object callbacks"

subsection \<open>What marshalling is expected to do\<close>

text \<open>
  Every object of a JavaScript value has pairwise different keys; this is the
  invariant of the representation by lists.
\<close>

fun unique_keys :: "jsval \<Rightarrow> bool"
  and unique_keys_entries :: "obj \<Rightarrow> bool"
where
  "unique_keys (VObj es) = (distinct (map fst es) \<and> unique_keys_entries es)"
| "unique_keys v = True"
| "unique_keys_entries [] = True"
| "unique_keys_entries ((key, v) # es) = (unique_keys v \<and> unique_keys_entries es)"

text \<open>The callable values of a value, at any depth, in the order of the traversal.\<close>

fun callables :: "jsval \<Rightarrow> func list"
  and callables_entries :: "obj \<Rightarrow> func list"
where
  "callables (VFun f) = [f]"
| "callables (VObj es) = callables_entries es"
| "callables v = []"
| "callables_entries [] = []"
| "callables_entries ((key, v) # es) = callables v @ callables_entries es"

text \<open>
  \<open>with_tokens n v\<close> is \<open>v\<close> with its callable values replaced, in the order of the
  traversal, by the tokens of the ordinals \<open>n\<close>, \<open>n + 1\<close>, ...; keys, their order and every
  other value are kept.
\<close>

fun with_tokens :: "nat \<Rightarrow> jsval \<Rightarrow> jsval"
  and with_tokens_entries :: "nat \<Rightarrow> obj \<Rightarrow> obj"
where
  "with_tokens n (VFun f) = VStr (token n)"
| "with_tokens n (VObj es) = VObj (with_tokens_entries n es)"
| "with_tokens n v = v"
| "with_tokens_entries n [] = []"
| "with_tokens_entries n ((key, v) # es) =
     (key, with_tokens n v) # with_tokens_entries (n + length (callables v)) es"

subsection \<open>The dispatch entry point of the test process\<close>

text \<open>
  \<open>array[ordinal]\<close> for a number: the element at an integer index inside the array,
  \<open>undefined\<close> (here \<open>None\<close>) for every other number.
\<close>

fun array_get :: "'a list \<Rightarrow> number \<Rightarrow> 'a option" where
  "array_get xs (IntNum i) = (if 0 \<le> i \<and> i < int (length xs) then Some (xs ! nat i) else None)"
| "array_get xs NaN = None"
| "array_get xs (OtherNum s) = None"

text \<open>
  The state of one worker: the module-level array of the test process, the calls
  made to the functions stored in it (each with its argument list), and, of the
  page, the ids of the elements of the document in document order and the calls
  made to the framework's entry points \<open>playwrightMount\<close> and \<open>playwrightUpdate\<close>.
  An element is named by its position in the document.
\<close>

datatype framework_call =
    PlaywrightMount jsval nat jsval
  | PlaywrightUpdate "nat option" jsval

record world =
  boundCallbacksForMount :: "func list"
  callback_calls :: "(func \<times> jsval list) list"
  document :: "string list"
  framework_calls :: "framework_call list"

text \<open>
  \<^verbatim>\<open>page.exposeFunction('__ct_dispatch', (ordinal, args) => {
    boundCallbacksForMount[ordinal](...args);
  });\<close>
  Calling \<open>undefined\<close> throws a TypeError. What the called function does is its own
  business; the model records that it was called, and with which arguments.
\<close>

definition ct_dispatch :: "number \<Rightarrow> jsval list \<Rightarrow> world \<Rightarrow> world \<times> (error + unit)" where
  "ct_dispatch ordinal args w =
     (case array_get (boundCallbacksForMount w) ordinal of
        None \<Rightarrow> (w, Inl TypeError)
      | Some f \<Rightarrow> (w\<lparr>callback_calls := callback_calls w @ [(f, args)]\<rparr>, Inr ()))"

text \<open>The ordinals registered in the array: the indices of its elements.\<close>

definition registered :: "world \<Rightarrow> number \<Rightarrow> bool" where
  "registered w ordinal = (ordinal \<in> set (map (\<lambda>n. IntNum (int n)) [0..<length (boundCallbacksForMount w)]))"

subsection \<open>Un-marshalling in the page\<close>

text \<open>
  \<^verbatim>\<open>const unwrapFunctions = (object) => {
    for (const [key, value] of Object.entries(object)) {
      if (typeof value === 'string' && value.startsWith('__pw_func_')) {
        const ordinal = +value.substring('__pw_func_'.length);
        object[key] = (...args) => { window['__ct_dispatch'](ordinal, args); };
      } else if (typeof value === 'object' && value) {
        unwrapFunctions(value);
      }
    }
  };\<close>
  The scripts of \<open>innerMount\<close> and of \<open>innerUpdate\<close> declare this function with the
  same text. The conversion of a string to a number by unary plus belongs to the
  runtime and is a parameter, \<open>to_number\<close>.
\<close>

fun unwrapFunctions :: "(string \<Rightarrow> number) \<Rightarrow> obj \<Rightarrow> obj"
  and unwrapLoop :: "(string \<Rightarrow> number) \<Rightarrow> obj \<Rightarrow> obj \<Rightarrow> obj"
where
  "unwrapFunctions to_number object = unwrapLoop to_number object object"
| "unwrapLoop to_number [] object = object"
| "unwrapLoop to_number ((key, VStr s) # entries) object =
     (if prefix pw_func_prefix s
      then unwrapLoop to_number entries
             (set_prop object key (VFun (Dispatcher (to_number (drop (length pw_func_prefix) s)))))
      else unwrapLoop to_number entries object)"
| "unwrapLoop to_number ((key, VObj es) # entries) object =
     unwrapLoop to_number entries (set_prop object key (VObj (unwrapFunctions to_number es)))"
| "unwrapLoop to_number ((key, v) # entries) object = unwrapLoop to_number entries object"

text \<open>
  A call, in the page, of a closure made by \<open>unwrapFunctions\<close>: the value returned and
  the calls of \<open>__ct_dispatch\<close> made. The promise of the call is neither awaited nor
  returned. A function of the test process does not exist in the page.
\<close>

datatype message = CtDispatch number "jsval list"

fun call_in_page :: "func \<Rightarrow> jsval list \<Rightarrow> (jsval \<times> message list) option" where
  "call_in_page (Dispatcher ordinal) args = Some (VUndefined, [CtDispatch ordinal args])"
| "call_in_page (Fn n) args = None"

text \<open>
  \<open>with_closures to_number v\<close> is \<open>v\<close> with every string that starts with the prefix
  replaced by the closure of the number that follows the prefix.
\<close>

fun with_closures :: "(string \<Rightarrow> number) \<Rightarrow> jsval \<Rightarrow> jsval"
  and with_closures_entries :: "(string \<Rightarrow> number) \<Rightarrow> obj \<Rightarrow> obj"
where
  "with_closures to_number (VStr s) =
     (if prefix pw_func_prefix s
      then VFun (Dispatcher (to_number (drop (length pw_func_prefix) s))) else VStr s)"
| "with_closures to_number (VObj es) = VObj (with_closures_entries to_number es)"
| "with_closures to_number v = v"
| "with_closures_entries to_number [] = []"
| "with_closures_entries to_number ((key, v) # es) =
     (key, with_closures to_number v) # with_closures_entries to_number es"

text \<open>
  The token format of the specification: the prefix, then a non-empty string of
  decimal digits.
\<close>

definition token_format :: "string \<Rightarrow> bool" where
  "token_format s =
     (prefix pw_func_prefix s \<and> drop (length pw_func_prefix) s \<noteq> [] \<and>
      (\<forall>c \<in> set (drop (length pw_func_prefix) s). c \<in> set ''0123456789''))"

text \<open>
  A conversion that is exact on the empty string and on the strings of decimal
  digits up to \<open>2^53\<close> (beyond, the runtime rounds, to a number that is no index
  of an array either). Every other
  string is given \<open>NaN\<close> here, as the runtime gives to the strings that are no
  numeric literal; signs, fractions, exponents, other radixes and white space are
  not converted by this instance. The theorems about \<open>unwrapFunctions\<close> hold for
  every conversion; this one serves in the examples.
\<close>

definition digits_to_number :: "string \<Rightarrow> number" where
  "digits_to_number s =
     (if \<forall>c \<in> set s. c \<in> set ''0123456789'' then IntNum (int (decimal_value s)) else NaN)"

subsection \<open>Mount and update\<close>

text \<open>
  What the bridge takes from the page's runtime: the conversion of unary plus, and
  \<open>window.__pwRegistry.resolveImports\<close>, which may reject.
\<close>

record runtime =
  unary_plus :: "string \<Rightarrow> number"
  resolveImports :: "jsval \<Rightarrow> error + jsval"

text \<open>
  The two walks applied to a value: a value that is no object has no entry that
  either walk would change.
\<close>

fun wrap_value :: "jsval \<Rightarrow> func list \<Rightarrow> jsval \<times> func list" where
  "wrap_value (VObj object) callbacks =
     (case wrapFunctions object callbacks of (object', callbacks') \<Rightarrow> (VObj object', callbacks'))"
| "wrap_value v callbacks = (v, callbacks)"

fun unwrap_value :: "(string \<Rightarrow> number) \<Rightarrow> jsval \<Rightarrow> jsval" where
  "unwrap_value to_number (VObj object) = VObj (unwrapFunctions to_number object)"
| "unwrap_value to_number v = v"

text \<open>\<open>document.getElementById\<close>: the first element of the document with that id.\<close>

fun getElementById :: "string list \<Rightarrow> string \<Rightarrow> nat option" where
  "getElementById [] ident = None"
| "getElementById (e # es) ident =
     (if e = ident then Some 0 else map_option Suc (getElementById es ident))"

text \<open>
  \<open>options.hooksConfig\<close>, read by \<open>innerMount\<close> after \<open>wrapFunctions\<close> has run. The
  spread copied the properties of \<open>options\<close> into the object component, so that an
  object held by \<open>options.hooksConfig\<close> is the one held by the component and has
  been marshalled in place with it. A declarative component shares nothing with
  \<open>options\<close>.
\<close>

definition hooksConfig_of :: "jsval \<Rightarrow> jsval \<Rightarrow> jsval \<Rightarrow> error + jsval" where
  "hooksConfig_of componentRef options wrapped =
     (case get_prop options ''hooksConfig'' of
        Inl e \<Rightarrow> Inl e
      | Inr h \<Rightarrow>
          (case h of
             VObj es \<Rightarrow>
               if get_prop componentRef ''__pw_type'' = Inr (VStr ''jsx'') then Inr h
               else get_prop wrapped ''hooksConfig''
           | _ \<Rightarrow> Inr h))"

text \<open>
  The script that \<open>innerMount\<close> evaluates in the page:
  \<^verbatim>\<open>unwrapFunctions(component);
  let rootElement = document.getElementById('root');
  if (!rootElement) {
    rootElement = document.createElement('div');
    rootElement.id = 'root';
    document.body.appendChild(rootElement);
  }
  component = await window.__pwRegistry.resolveImports(component);
  await window.playwrightMount(component, rootElement, hooksConfig);
  return '#root >> internal:control=component';\<close>
  The transfer of the argument into the page is the identity on values without
  functions; that \<open>page.evaluate\<close> refuses a value which still holds a function is
  not modelled. The entry points of the framework are recorded as called; what
  they do is outside the bridge.
\<close>

definition mount_script :: "runtime \<Rightarrow> jsval \<Rightarrow> jsval \<Rightarrow> world \<Rightarrow> world \<times> (error + string)" where
  "mount_script rt component hooksConfig w =
     (let unwrapped = unwrap_value (unary_plus rt) component;
          found = getElementById (document w) ''root'';
          rootElement = (case found of Some r \<Rightarrow> r | None \<Rightarrow> length (document w));
          w1 = (case found of Some r \<Rightarrow> w | None \<Rightarrow> w\<lparr>document := document w @ [''root'']\<rparr>)
      in case resolveImports rt unwrapped of
           Inl e \<Rightarrow> (w1, Inl e)
         | Inr resolved \<Rightarrow>
             (w1\<lparr>framework_calls :=
                    framework_calls w1 @ [PlaywrightMount resolved rootElement hooksConfig]\<rparr>,
              Inr ''#root >> internal:control=component''))"

text \<open>
  \<^verbatim>\<open>async function innerMount(page, componentRef, options = {}) {
    const component = createComponent(componentRef, options);
    wrapFunctions(component, page, boundCallbacksForMount);
    await page.waitForFunction(() => !!window.playwrightMount);
    const selector = await page.evaluate(script, { component, hooksConfig: options.hooksConfig });
    return selector;
  }\<close>
  The state changes made before an exception stay. The wait for the framework to
  be loaded is not modelled: the script is taken to run.
\<close>

definition innerMount :: "runtime \<Rightarrow> jsval \<Rightarrow> jsval \<Rightarrow> world \<Rightarrow> world \<times> (error + string)" where
  "innerMount rt componentRef options0 w =
     (let options = default_options options0
      in case createComponent componentRef options of
           Inl e \<Rightarrow> (w, Inl e)
         | Inr component \<Rightarrow>
             (case wrap_value component (boundCallbacksForMount w) of
                (wrapped, callbacks) \<Rightarrow>
                  (let w1 = w\<lparr>boundCallbacksForMount := callbacks\<rparr>
                   in case hooksConfig_of componentRef options wrapped of
                        Inl e \<Rightarrow> (w1, Inl e)
                      | Inr hooksConfig \<Rightarrow> mount_script rt wrapped hooksConfig w1)))"

text \<open>
  The script that \<open>innerUpdate\<close> evaluates in the page:
  \<^verbatim>\<open>unwrapFunctions(component);
  component = await window.__pwRegistry.resolveImports(component);
  const rootElement = document.getElementById('root')!;
  return await window.playwrightUpdate(rootElement, component);\<close>
\<close>

definition update_script :: "runtime \<Rightarrow> jsval \<Rightarrow> world \<Rightarrow> world \<times> (error + unit)" where
  "update_script rt component w =
     (let unwrapped = unwrap_value (unary_plus rt) component
      in case resolveImports rt unwrapped of
           Inl e \<Rightarrow> (w, Inl e)
         | Inr resolved \<Rightarrow>
             (w\<lparr>framework_calls :=
                   framework_calls w @ [PlaywrightUpdate (getElementById (document w) ''root'') resolved]\<rparr>,
              Inr ()))"

text \<open>
  \<^verbatim>\<open>async function innerUpdate(page, componentRef, options = {}) {
    const component = createComponent(componentRef, options);
    wrapFunctions(component, page, boundCallbacksForMount);
    await page.evaluate(script, { component });
  }\<close>
\<close>

definition innerUpdate :: "runtime \<Rightarrow> jsval \<Rightarrow> jsval \<Rightarrow> world \<Rightarrow> world \<times> (error + unit)" where
  "innerUpdate rt componentRef options0 w =
     (let options = default_options options0
      in case createComponent componentRef options of
           Inl e \<Rightarrow> (w, Inl e)
         | Inr component \<Rightarrow>
             (case wrap_value component (boundCallbacksForMount w) of
                (wrapped, callbacks) \<Rightarrow>
                  update_script rt wrapped (w\<lparr>boundCallbacksForMount := callbacks\<rparr>)))"

text \<open>
  The \<open>update\<close> method of the handle that the \<open>mount\<close> fixture returns;
  \<open>componentRef\<close> is the argument of that mount, as marshalling in place left it.
  \<^verbatim>\<open>update: async (options) => {
    if (isJsxComponent(options))
      return await innerUpdate(page, options);
    await innerUpdate(page, componentRef, options);
  }\<close>
\<close>

definition update :: "runtime \<Rightarrow> jsval \<Rightarrow> jsval \<Rightarrow> world \<Rightarrow> world \<times> (error + unit)" where
  "update rt componentRef options w =
     (if isJsxComponent options then innerUpdate rt options VUndefined w
      else innerUpdate rt componentRef options w)"

text \<open>The element that a call of an entry point of the framework was given.\<close>

fun call_root :: "framework_call \<Rightarrow> nat option" where
  "call_root (PlaywrightMount component rootElement hooksConfig) = Some rootElement"
| "call_root (PlaywrightUpdate rootElement component) = rootElement"

subsection \<open>Sessions of the mount fixture\<close>

text \<open>
  What a test does while it holds the fixture: it mounts, it updates through a
  handle, and the page calls \<open>__ct_dispatch\<close>. A test may catch an exception and go
  on, so that a failed operation does not end the sequence.
\<close>

datatype operation =
    Mount jsval jsval
  | Update jsval jsval
  | Dispatch number "jsval list"

fun perform :: "runtime \<Rightarrow> operation \<Rightarrow> world \<Rightarrow> world" where
  "perform rt (Mount componentRef options) w = fst (innerMount rt componentRef options w)"
| "perform rt (Update componentRef options) w = fst (update rt componentRef options w)"
| "perform rt (Dispatch ordinal args) w = fst (ct_dispatch ordinal args w)"

fun run :: "runtime \<Rightarrow> operation list \<Rightarrow> world \<Rightarrow> world" where
  "run rt [] w = w"
| "run rt (operation # operations) w = run rt operations (perform rt operation w)"

text \<open>
  \<^verbatim>\<open>let boundCallbacksForMount: Function[] = [];
  mount: async ({ page }, use) => {
    await use(async (componentRef, options) => { ... });
    boundCallbacksForMount = [];
  }\<close>
  The operations of the test run inside \<open>use\<close>; the array is replaced by an empty
  one when \<open>use\<close> returns.
\<close>

definition mount_fixture :: "runtime \<Rightarrow> operation list \<Rightarrow> world \<Rightarrow> world" where
  "mount_fixture rt operations w = (run rt operations w)\<lparr>boundCallbacksForMount := []\<rparr>"

text \<open>
  A worker loads the module once and runs its tests one after the other, each on
  the page that the \<open>page\<close> fixture hands to it. \<open>session_starts\<close> lists the states in
  which the sessions of the fixture begin.
\<close>

definition module_loaded :: world where
  "module_loaded =
     \<lparr>boundCallbacksForMount = [], callback_calls = [], document = [], framework_calls = []\<rparr>"

definition open_page :: "string list \<Rightarrow> world \<Rightarrow> world" where
  "open_page elements w = w\<lparr>document := elements, framework_calls := []\<rparr>"

fun session_starts :: "runtime \<Rightarrow> (string list \<times> operation list) list \<Rightarrow> world \<Rightarrow> world list" where
  "session_starts rt [] w = []"
| "session_starts rt ((elements, operations) # tests) w =
     open_page elements w #
     session_starts rt tests (mount_fixture rt operations (open_page elements w))"

subsection \<open>Values used in the examples\<close>

abbreviation sample_runtime :: runtime where
  "sample_runtime \<equiv> \<lparr>unary_plus = digits_to_number, resolveImports = Inr\<rparr>"

abbreviation button_ref :: jsval where
  "button_ref \<equiv> VObj [(''__pw_type'', VStr ''importRef''), (''id'', VStr ''Button'')]"

abbreviation render_ref :: jsval where
  "render_ref \<equiv>
     VObj [(''__pw_type'', VStr ''importRef''), (''id'', VStr ''Button''), (''render'', VFun (Fn 1))]"

abbreviation indexed_options :: jsval where
  "indexed_options \<equiv> VObj [(''0'', VFun (Fn 2)), (''props'', VObj [(''onClick'', VFun (Fn 3))])]"

section \<open>Properties\<close>

subsection \<open>Decimal numerals, tokens and object properties\<close>

lemma digit_value_digit_char: "d < 10 \<Longrightarrow> digit_value (digit_char d) = d"
proof -
  assume "d < 10"
  then have "d = 0 \<or> d = 1 \<or> d = 2 \<or> d = 3 \<or> d = 4 \<or> d = 5 \<or> d = 6 \<or> d = 7 \<or> d = 8 \<or> d = 9"
    by arith
  then show ?thesis
    by (elim disjE) (simp_all add: digit_char_def digit_value_def)
qed

lemma digit_char_is_digit: "d < 10 \<Longrightarrow> digit_char d \<in> set ''0123456789''"
proof -
  assume "d < 10"
  then have "d = 0 \<or> d = 1 \<or> d = 2 \<or> d = 3 \<or> d = 4 \<or> d = 5 \<or> d = 6 \<or> d = 7 \<or> d = 8 \<or> d = 9"
    by arith
  then show ?thesis
    by (elim disjE) (simp_all add: digit_char_def)
qed

lemma decimal_value_snoc: "decimal_value (s @ [c]) = 10 * decimal_value s + digit_value c"
  by (simp add: decimal_value_def)

lemma decimal_value_decimal: "decimal_value (decimal n) = n"
proof (induction n rule: decimal.induct)
  case (1 n)
  show ?case
  proof (cases "n < 10")
    case True
    then show ?thesis
      by (simp add: decimal.simps [of n] decimal_value_def digit_value_digit_char)
  next
    case False
    then have "decimal_value (decimal n) = 10 * decimal_value (decimal (n div 10)) + digit_value (digit_char (n mod 10))"
      by (simp add: decimal.simps [of n] decimal_value_snoc)
    also have "\<dots> = 10 * (n div 10) + n mod 10"
      using 1 False by (simp add: digit_value_digit_char)
    finally show ?thesis by simp
  qed
qed

lemma decimal_inj: "decimal m = decimal n \<Longrightarrow> m = n"
  by (metis decimal_value_decimal)

lemma decimal_digits: "c \<in> set (decimal n) \<Longrightarrow> c \<in> set ''0123456789''"
proof (induction n rule: decimal.induct)
  case (1 n)
  show ?case
  proof (cases "n < 10")
    case True
    with 1(2) show ?thesis
      using digit_char_is_digit [of n] by (simp add: decimal.simps [of n])
  next
    case False
    with 1 show ?thesis
      using digit_char_is_digit [of "n mod 10"] by (auto simp: decimal.simps [of n])
  qed
qed

lemma token_inj: "token m = token n \<Longrightarrow> m = n"
  by (simp add: token_def decimal_inj)

lemma distinct_tokens: "distinct (map token [m..<n])"
  by (simp add: distinct_map inj_on_def token_inj)

lemma digits_to_number_decimal: "digits_to_number (decimal n) = IntNum (int n)"
  using decimal_digits by (auto simp add: digits_to_number_def decimal_value_decimal)

lemma map_of_replace_prop:
  "key \<in> fst ` set object \<Longrightarrow>
     map_of (replace_prop object key v) k = ((map_of object)(key \<mapsto> v)) k"
proof (induction object)
  case Nil
  then show ?case by simp
next
  case (Cons e object)
  obtain k' w where e: "e = (k', w)" by (cases e)
  show ?case
  proof (cases "k' = key")
    case True
    then show ?thesis by (simp add: e)
  next
    case False
    with Cons.prems have "key \<in> fst ` set object" by (auto simp: e)
    from Cons.IH [OF this] False show ?thesis by (auto simp: e split: if_splits)
  qed
qed

lemma map_of_insert_index:
  "map_of (insert_index object key v) k = ((map_of object)(key \<mapsto> v)) k"
  by (induction object key v rule: insert_index.induct) auto

lemma map_of_append_new:
  "key \<notin> fst ` set object \<Longrightarrow>
     map_of (object @ [(key, v)]) k = ((map_of object)(key \<mapsto> v)) k"
  by (induction object) auto

lemma map_of_set_prop: "map_of (set_prop object key v) = (map_of object)(key \<mapsto> v)"
proof
  fix k
  show "map_of (set_prop object key v) k = ((map_of object)(key \<mapsto> v)) k"
    unfolding set_prop_def
    using map_of_replace_prop [of key object v k] map_of_insert_index [of object key v k]
      map_of_append_new [of key object v k]
    by (simp del: fun_upd_apply map_of_append)
qed

lemma map_of_assign_other:
  "key \<notin> fst ` set es \<Longrightarrow>
     map_of (foldl (\<lambda>acc (k, v). set_prop acc k v) target es) key = map_of target key"
  by (induction es arbitrary: target) (auto simp: map_of_set_prop)

lemma map_of_assign_entry:
  "distinct (map fst es) \<Longrightarrow> (key, v) \<in> set es \<Longrightarrow>
     map_of (foldl (\<lambda>acc (k, v). set_prop acc k v) target es) key = Some v"
proof (induction es arbitrary: target)
  case Nil
  then show ?case by simp
next
  case (Cons e es)
  obtain k w where e: "e = (k, w)" by (cases e)
  show ?case
  proof (cases "(key, v) \<in> set es")
    case True
    with Cons show ?thesis by (simp add: e)
  next
    case False
    with Cons.prems have kv: "k = key" "w = v" and "key \<notin> fst ` set es"
      by (auto simp: e)
    then show ?thesis
      by (simp add: e map_of_assign_other map_of_set_prop)
  qed
qed

subsection \<open>Marshalling\<close>

lemma replace_prop_middle:
  "key \<notin> fst ` set pre \<Longrightarrow> replace_prop (pre @ (key, w) # rest) key v = pre @ (key, v) # rest"
  by (induction pre) auto

lemma set_prop_middle:
  "key \<notin> fst ` set pre \<Longrightarrow> set_prop (pre @ (key, w) # rest) key v = pre @ (key, v) # rest"
  by (simp add: set_prop_def replace_prop_middle)

lemma wrapFunctions_wrapLoop_correct:
  "unique_keys_entries es \<Longrightarrow> distinct (map fst es) \<Longrightarrow>
     wrapFunctions es cbs = (with_tokens_entries (length cbs) es, cbs @ callables_entries es)"
  "unique_keys_entries entries \<Longrightarrow> object = pre @ entries \<Longrightarrow> distinct (map fst object) \<Longrightarrow>
     wrapLoop entries object cbs = (pre @ with_tokens_entries (length cbs) entries, cbs @ callables_entries entries)"
proof (induction es cbs and entries object cbs arbitrary: and pre
    rule: wrapFunctions_wrapLoop.induct
      [case_names entry finished callable nested undef nul boolean num str])
  case (entry object callbacks)
  then show ?case by simp
next
  case (finished object callbacks)
  then show ?case by simp
next
  case (callable key f entries object callbacks)
  let ?p = "pre @ [(key, VStr (token (length callbacks)))]"
  have "set_prop object key (VStr (token (length callbacks))) = ?p @ entries"
    using callable(3,4) by (simp add: set_prop_middle)
  moreover have "distinct (map fst (?p @ entries))"
    using callable(3,4) by simp
  ultimately show ?case using callable(1)[of ?p] callable(2) by simp
next
  case (nested key es entries object callbacks)
  let ?es' = "with_tokens_entries (length callbacks) es"
  let ?cbs' = "callbacks @ callables_entries es"
  let ?p = "pre @ [(key, VObj ?es')]"
  have w: "wrapFunctions es callbacks = (?es', ?cbs')"
    using nested(1) nested(3) by simp
  have "set_prop object key (VObj ?es') = ?p @ entries"
    using nested(4,5) by (simp add: set_prop_middle)
  moreover have "distinct (map fst (?p @ entries))"
    using nested(4,5) by simp
  ultimately have "wrapLoop entries (set_prop object key (VObj ?es')) ?cbs' =
      (?p @ with_tokens_entries (length ?cbs') entries, ?cbs' @ callables_entries entries)"
    using nested(2)[OF w [symmetric], of ?p] nested(3) by simp
  then show ?case using w by simp
next
  case (undef key entries object callbacks)
  show ?case using undef(1)[of "pre @ [(key, VUndefined)]"] undef(2-) by simp
next
  case (nul key entries object callbacks)
  show ?case using nul(1)[of "pre @ [(key, VNull)]"] nul(2-) by simp
next
  case (boolean key b entries object callbacks)
  show ?case using boolean(1)[of "pre @ [(key, VBool b)]"] boolean(2-) by simp
next
  case (num key n entries object callbacks)
  show ?case using num(1)[of "pre @ [(key, VNum n)]"] num(2-) by simp
next
  case (str key s entries object callbacks)
  show ?case using str(1)[of "pre @ [(key, VStr s)]"] str(2-) by simp
qed

lemma callables_with_tokens:
  "callables (with_tokens n v) = []"
  "callables_entries (with_tokens_entries n es) = []"
  by (induction n v and n es rule: with_tokens_with_tokens_entries.induct) simp_all

text \<open>
  C1. Let \<open>object\<close> be a composite value with \<open>N\<close> callable values at any depth.
  \<open>wrapFunctions\<close> replaces the callable values, in the order of the traversal, by the
  tokens of the ordinals \<open>length callbacks\<close>, ..., \<open>length callbacks + N - 1\<close>, and keeps
  every key and every other value; no callable value remains; the \<open>N\<close> tokens are
  pairwise different; and the callable whose token has ordinal
  \<open>length callbacks + i\<close> is what the array holds at that index afterwards.
\<close>

theorem wrapFunctions_replaces_callables:
  assumes "unique_keys (VObj object)"
  shows "wrapFunctions object callbacks =
           (with_tokens_entries (length callbacks) object, callbacks @ callables_entries object)
         \<and> callables_entries (fst (wrapFunctions object callbacks)) = []
         \<and> distinct (map token [length callbacks ..< length callbacks + length (callables_entries object)])
         \<and> (\<forall>i < length (callables_entries object).
               (callbacks @ callables_entries object) ! (length callbacks + i) =
               callables_entries object ! i)"
  using assms
  by (simp add: wrapFunctions_wrapLoop_correct(1) callables_with_tokens distinct_tokens
        del: wrapFunctions.simps)

theorem wrapFunctions_replaces_callables_witness:
  "unique_keys (VObj [(''count'', VNum (IntNum 0)), (''onClick'', VFun (Fn 7)),
                      (''props'', VObj [(''title'', VStr ''Save''), (''onClose'', VFun (Fn 8))])])
   \<and> wrapFunctions
         [(''count'', VNum (IntNum 0)), (''onClick'', VFun (Fn 7)),
          (''props'', VObj [(''title'', VStr ''Save''), (''onClose'', VFun (Fn 8))])]
         [Fn 1]
       = ([(''count'', VNum (IntNum 0)), (''onClick'', VStr ''__pw_func_1''),
           (''props'', VObj [(''title'', VStr ''Save''), (''onClose'', VStr ''__pw_func_2'')])],
          [Fn 1, Fn 7, Fn 8])"
  using wrapFunctions_replaces_callables
    [of "[(''count'', VNum (IntNum 0)), (''onClick'', VFun (Fn 7)),
          (''props'', VObj [(''title'', VStr ''Save''), (''onClose'', VFun (Fn 8))])]" "[Fn 1]"]
  by (simp add: token_def pw_func_prefix_def decimal.simps digit_char_def del: wrapFunctions.simps)

subsection \<open>The descriptor builder\<close>

text \<open>
  C7. For every input tagged as a declarative (jsx) component, \<open>createComponent\<close>
  returns the input itself, whatever the options.
\<close>

theorem createComponent_jsx_unchanged:
  "get_prop component ''__pw_type'' = Inr (VStr ''jsx'') \<Longrightarrow>
     createComponent component options = Inr component"
  by (simp add: createComponent_def)

theorem createComponent_jsx_unchanged_witness:
  "get_prop (VObj [(''__pw_type'', VStr ''jsx''), (''type'', VStr ''button''),
                   (''props'', VObj [(''title'', VStr ''Submit'')])]) ''__pw_type'' = Inr (VStr ''jsx'')
   \<and> createComponent
         (VObj [(''__pw_type'', VStr ''jsx''), (''type'', VStr ''button''),
                (''props'', VObj [(''title'', VStr ''Submit'')])])
         (VObj [(''props'', VObj [(''title'', VStr ''Cancel'')]), (''slots'', VObj [])])
       = Inr (VObj [(''__pw_type'', VStr ''jsx''), (''type'', VStr ''button''),
                    (''props'', VObj [(''title'', VStr ''Submit'')])])"
  using createComponent_jsx_unchanged
    [of "VObj [(''__pw_type'', VStr ''jsx''), (''type'', VStr ''button''),
               (''props'', VObj [(''title'', VStr ''Submit'')])]"
        "VObj [(''props'', VObj [(''title'', VStr ''Cancel'')]), (''slots'', VObj [])]"]
  by simp

text \<open>
  C8. For an input that is no declarative component (reading its tag succeeds and
  does not give \<open>jsx\<close>), \<open>createComponent\<close> with missing or empty options gives, without
  error, the object component that has the tag and the type and nothing else, so
  no props; and every field of the options (\<open>slots\<close> among them) is found with its
  value on the descriptor that is built.
\<close>

theorem createComponent_empty_options:
  assumes "get_prop component ''__pw_type'' = Inr t" and "t \<noteq> VStr ''jsx''"
  shows "createComponent component VUndefined =
           Inr (VObj [(''__pw_type'', VStr ''object-component''), (''type'', component)])
       \<and> createComponent component (VObj []) =
           Inr (VObj [(''__pw_type'', VStr ''object-component''), (''type'', component)])
       \<and> get_prop (VObj [(''__pw_type'', VStr ''object-component''), (''type'', component)]) ''props''
           = Inr VUndefined
       \<and> (distinct (map fst opts) \<longrightarrow>
            (\<exists>descriptor. createComponent component (VObj opts) = Inr (VObj descriptor) \<and>
               (\<forall>(key, v) \<in> set opts. map_of descriptor key = Some v)))"
  using assms
  by (auto simp: createComponent_def spread_def default_options_def map_of_assign_entry)

theorem createComponent_empty_options_witness:
  "get_prop (VObj [(''__pw_type'', VStr ''importRef''), (''id'', VStr ''Button'')]) ''__pw_type'' = Inr (VStr ''importRef'')
   \<and> VStr ''importRef'' \<noteq> VStr ''jsx''
   \<and> createComponent (VObj [(''__pw_type'', VStr ''importRef''), (''id'', VStr ''Button'')]) VUndefined =
        Inr (VObj [(''__pw_type'', VStr ''object-component''), (''type'', (VObj [(''__pw_type'', VStr ''importRef''), (''id'', VStr ''Button'')]))])
   \<and> distinct (map fst [(''props'', VObj [(''count'', VNum (IntNum 0))]),
                          (''slots'', VObj [(''default'', VStr ''text'')])])
   \<and> createComponent (VObj [(''__pw_type'', VStr ''importRef''), (''id'', VStr ''Button'')])
         (VObj [(''props'', VObj [(''count'', VNum (IntNum 0))]),
                (''slots'', VObj [(''default'', VStr ''text'')])])
       = Inr (VObj [(''__pw_type'', VStr ''object-component''), (''type'', (VObj [(''__pw_type'', VStr ''importRef''), (''id'', VStr ''Button'')])),
                    (''props'', VObj [(''count'', VNum (IntNum 0))]),
                    (''slots'', VObj [(''default'', VStr ''text'')])])"
  using createComponent_empty_options
    [of "VObj [(''__pw_type'', VStr ''importRef''), (''id'', VStr ''Button'')]" "VStr ''importRef''"
        "[(''props'', VObj [(''count'', VNum (IntNum 0))]),
          (''slots'', VObj [(''default'', VStr ''text'')])]"]
  by (simp add: createComponent_def spread_def set_prop_def is_array_index_def default_options_def)

lemma spread_tag:
  "''__pw_type'' \<notin> fst ` set (own_entries source) \<Longrightarrow>
     map_of (spread ((''__pw_type'', t) # rest) source) ''__pw_type'' = Some t"
  by (simp add: spread_def map_of_assign_other)

text \<open>
  C10, as stated: every descriptor that \<open>createComponent\<close> builds is tagged \<open>jsx\<close> or
  \<open>object-component\<close>, for every input and every options bag. The spread comes
  after the tag in the object literal, so that a \<open>__pw_type\<close> field of the options
  replaces the tag.
\<close>

theorem createComponent_one_tag_counterexample:
  "createComponent
     (VObj [(''__pw_type'', VStr ''importRef''), (''id'', VStr ''Button'')])
     (VObj [(''__pw_type'', VStr ''custom'')])
   = Inr (VObj [(''__pw_type'', VStr ''custom''),
                (''type'', VObj [(''__pw_type'', VStr ''importRef''), (''id'', VStr ''Button'')])])
   \<and> get_prop
         (VObj [(''__pw_type'', VStr ''custom''),
                (''type'', VObj [(''__pw_type'', VStr ''importRef''), (''id'', VStr ''Button'')])])
         ''__pw_type'' \<noteq> Inr (VStr ''jsx'')
   \<and> get_prop
         (VObj [(''__pw_type'', VStr ''custom''),
                (''type'', VObj [(''__pw_type'', VStr ''importRef''), (''id'', VStr ''Button'')])])
         ''__pw_type'' \<noteq> Inr (VStr ''object-component'')"
  by (simp add: createComponent_def spread_def set_prop_def is_array_index_def default_options_def)

text \<open>
  C10, amended. For every input and every options bag that has no \<open>__pw_type\<close>
  field of its own, the descriptor that \<open>createComponent\<close> builds carries one tag:
  \<open>jsx\<close> when the input is tagged \<open>jsx\<close>, \<open>object-component\<close> otherwise.
\<close>

theorem createComponent_one_tag:
  assumes "''__pw_type'' \<notin> fst ` set (own_entries options)"
    and "createComponent component options = Inr descriptor"
  shows "get_prop descriptor ''__pw_type'' =
           Inr (VStr (if get_prop component ''__pw_type'' = Inr (VStr ''jsx'')
                      then ''jsx'' else ''object-component''))"
proof (cases "get_prop component ''__pw_type'' = Inr (VStr ''jsx'')")
  case True
  with assms(2) show ?thesis by (simp add: createComponent_def)
next
  case False
  from assms(1) have "''__pw_type'' \<notin> fst ` set (own_entries (default_options options))"
    by (simp add: default_options_def)
  with False assms(2) show ?thesis
    by (auto simp: createComponent_def spread_tag split: sum.splits)
qed

theorem createComponent_one_tag_witness:
  "''__pw_type'' \<notin> fst ` set (own_entries (VObj [(''props'', VObj [])]))
   \<and> createComponent (VObj [(''__pw_type'', VStr ''importRef''), (''id'', VStr ''Button'')]) (VObj [(''props'', VObj [])]) =
        Inr (VObj [(''__pw_type'', VStr ''object-component''), (''type'', (VObj [(''__pw_type'', VStr ''importRef''), (''id'', VStr ''Button'')])), (''props'', VObj [])])
   \<and> get_prop (VObj [(''__pw_type'', VStr ''object-component''), (''type'', (VObj [(''__pw_type'', VStr ''importRef''), (''id'', VStr ''Button'')])), (''props'', VObj [])])
        ''__pw_type'' = Inr (VStr ''object-component'')"
  using createComponent_one_tag
    [of "VObj [(''props'', VObj [])]" "VObj [(''__pw_type'', VStr ''importRef''), (''id'', VStr ''Button'')]"
        "VObj [(''__pw_type'', VStr ''object-component''), (''type'', (VObj [(''__pw_type'', VStr ''importRef''), (''id'', VStr ''Button'')])), (''props'', VObj [])]"]
  by (simp add: createComponent_def spread_def set_prop_def is_array_index_def default_options_def)

subsection \<open>Dispatch\<close>

lemma array_get_unregistered:
  "\<not> registered w ordinal \<Longrightarrow> array_get (boundCallbacksForMount w) ordinal = None"
proof (cases ordinal)
  case (IntNum i)
  assume u: "\<not> registered w ordinal"
  show ?thesis
  proof (rule ccontr)
    assume "array_get (boundCallbacksForMount w) ordinal \<noteq> None"
    then have "0 \<le> i" "i < int (length (boundCallbacksForMount w))"
      by (auto simp: IntNum split: if_splits)
    then have "nat i < length (boundCallbacksForMount w)" "i = int (nat i)" by auto
    then have "registered w ordinal"
      unfolding registered_def IntNum by (metis (no_types, lifting) atLeastLessThan_iff imageI set_map set_upt zero_le)
    with u show False by simp
  qed
next
  case NaN
  then show ?thesis by simp
next
  case (OtherNum s)
  then show ?thesis by simp
qed

text \<open>
  C2. For an ordinal registered in the array, \<open>__ct_dispatch\<close> calls the function
  stored at that index once, with the argument list as it was given, and changes
  nothing else.
\<close>

theorem ct_dispatch_registered:
  assumes "n < length (boundCallbacksForMount w)"
  shows "ct_dispatch (IntNum (int n)) args w =
           (w\<lparr>callback_calls := callback_calls w @ [(boundCallbacksForMount w ! n, args)]\<rparr>, Inr ())"
  using assms by (simp add: ct_dispatch_def)

theorem ct_dispatch_registered_witness:
  "(1::nat) < length (boundCallbacksForMount (\<lparr>boundCallbacksForMount = [Fn 7, Fn 8], callback_calls = [], document = [''root''],
        framework_calls = []\<rparr>))
   \<and> ct_dispatch (IntNum 1) [VStr ''a'', VNum (IntNum 2)] (\<lparr>boundCallbacksForMount = [Fn 7, Fn 8], callback_calls = [], document = [''root''],
        framework_calls = []\<rparr>) =
        ((\<lparr>boundCallbacksForMount = [Fn 7, Fn 8], callback_calls = [], document = [''root''],
        framework_calls = []\<rparr>)\<lparr>callback_calls := [(Fn 8, [VStr ''a'', VNum (IntNum 2)])]\<rparr>, Inr ())"
  using ct_dispatch_registered [of 1 "\<lparr>boundCallbacksForMount = [Fn 7, Fn 8], callback_calls = [], document = [''root''],
        framework_calls = []\<rparr>" "[VStr ''a'', VNum (IntNum 2)]"]
  by simp

text \<open>
  C4. For an ordinal that is not registered in the array, \<open>__ct_dispatch\<close> throws a
  TypeError; it calls nothing and changes nothing.
\<close>

theorem ct_dispatch_unregistered:
  assumes "\<not> registered w ordinal"
  shows "ct_dispatch ordinal args w = (w, Inl TypeError)"
  using assms by (simp add: ct_dispatch_def array_get_unregistered)

theorem ct_dispatch_unregistered_witness:
  "\<not> registered (\<lparr>boundCallbacksForMount = [Fn 7, Fn 8], callback_calls = [], document = [''root''],
        framework_calls = []\<rparr>) (IntNum 2)
   \<and> ct_dispatch (IntNum 2) [] (\<lparr>boundCallbacksForMount = [Fn 7, Fn 8], callback_calls = [], document = [''root''],
        framework_calls = []\<rparr>) = ((\<lparr>boundCallbacksForMount = [Fn 7, Fn 8], callback_calls = [], document = [''root''],
        framework_calls = []\<rparr>), Inl TypeError)"
  using ct_dispatch_unregistered [of "\<lparr>boundCallbacksForMount = [Fn 7, Fn 8], callback_calls = [], document = [''root''],
        framework_calls = []\<rparr>" "IntNum 2" "[]"]
  by (simp add: registered_def upt_rec)

subsection \<open>Un-marshalling\<close>

lemma unwrapFunctions_unwrapLoop_correct:
  "unique_keys_entries es \<Longrightarrow> distinct (map fst es) \<Longrightarrow>
     unwrapFunctions tn es = with_closures_entries tn es"
  "unique_keys_entries entries \<Longrightarrow> object = pre @ entries \<Longrightarrow> distinct (map fst object) \<Longrightarrow>
     unwrapLoop tn entries object = pre @ with_closures_entries tn entries"
proof (induction tn es and tn entries object arbitrary: and pre
    rule: unwrapFunctions_unwrapLoop.induct
      [case_names entry finished str nested undef nul boolean num callable])
  case (entry to_number object)
  then show ?case by simp
next
  case (finished to_number object)
  then show ?case by simp
next
  case (str to_number key s entries object)
  show ?case
  proof (cases "prefix pw_func_prefix s")
    case True
    let ?c = "VFun (Dispatcher (to_number (drop (length pw_func_prefix) s)))"
    have "set_prop object key ?c = (pre @ [(key, ?c)]) @ entries"
      using str(4,5) by (simp add: set_prop_middle)
    moreover have "distinct (map fst ((pre @ [(key, ?c)]) @ entries))"
      using str(4,5) by simp
    ultimately show ?thesis
      using str(1)[OF True, of "pre @ [(key, ?c)]"] str(3) True by simp
  next
    case False
    then show ?thesis
      using str(2)[OF False, of "pre @ [(key, VStr s)]"] str(3-) by simp
  qed
next
  case (nested to_number key es entries object)
  let ?es' = "with_closures_entries to_number es"
  have u: "unwrapFunctions to_number es = ?es'"
    using nested(1) nested(3) by simp
  have "set_prop object key (VObj ?es') = (pre @ [(key, VObj ?es')]) @ entries"
    using nested(4,5) by (simp add: set_prop_middle)
  moreover have "distinct (map fst ((pre @ [(key, VObj ?es')]) @ entries))"
    using nested(4,5) by simp
  ultimately have "unwrapLoop to_number entries (set_prop object key (VObj ?es')) =
      (pre @ [(key, VObj ?es')]) @ with_closures_entries to_number entries"
    using nested(2)[of "pre @ [(key, VObj ?es')]"] nested(3) u by simp
  then show ?case using u by simp
next
  case (undef to_number key entries object)
  show ?case using undef(1)[of "pre @ [(key, VUndefined)]"] undef(2-) by simp
next
  case (nul to_number key entries object)
  show ?case using nul(1)[of "pre @ [(key, VNull)]"] nul(2-) by simp
next
  case (boolean to_number key b entries object)
  show ?case using boolean(1)[of "pre @ [(key, VBool b)]"] boolean(2-) by simp
next
  case (num to_number key n entries object)
  show ?case using num(1)[of "pre @ [(key, VNum n)]"] num(2-) by simp
next
  case (callable to_number key f entries object)
  show ?case using callable(1)[of "pre @ [(key, VFun f)]"] callable(2-) by simp
qed

lemma drop_prefix_token: "drop (length pw_func_prefix) (token n) = decimal n"
  by (simp add: token_def)

lemma prefix_token: "prefix pw_func_prefix (token n)"
  by (simp add: token_def)

text \<open>
  C3, as stated: \<open>unwrapFunctions\<close> replaces exactly the strings of the token format
  (the prefix, then a decimal ordinal) and leaves every other value unchanged. The
  test of the code is \<open>startsWith\<close>: a string that starts with the prefix and goes on
  with anything is replaced as well.
\<close>

theorem unwrapFunctions_token_format_counterexample:
  "\<not> token_format ''__pw_func_abc''
   \<and> unwrapFunctions digits_to_number [(''label'', VStr ''__pw_func_abc'')] =
        [(''label'', VFun (Dispatcher NaN))]"
  by (simp add: token_format_def pw_func_prefix_def digits_to_number_def set_prop_def)

text \<open>
  C3, amended. \<open>unwrapFunctions\<close>, which the scripts of mount and of update both run,
  replaces exactly the strings that start with the prefix \<open>__pw_func_\<close>, whatever
  follows it, by a closure, and keeps every key and every other value. The closure
  holds the number that unary plus gives for the text after the prefix, which for
  the token of \<open>n\<close> is the conversion of the decimal numeral of \<open>n\<close>. Called with any
  arguments, the closure calls \<open>__ct_dispatch\<close> once with that number and the
  argument list, and returns \<open>undefined\<close>.
\<close>

theorem unwrapFunctions_makes_closures:
  assumes "unique_keys (VObj object)"
  shows "unwrapFunctions to_number object = with_closures_entries to_number object
       \<and> with_closures to_number (VStr (token n)) = VFun (Dispatcher (to_number (decimal n)))
       \<and> call_in_page (Dispatcher ordinal) args = Some (VUndefined, [CtDispatch ordinal args])"
  using assms
  by (simp add: unwrapFunctions_unwrapLoop_correct(1) prefix_token drop_prefix_token del: unwrapFunctions.simps)

theorem unwrapFunctions_makes_closures_witness:
  "unique_keys (VObj [(''onClick'', VStr ''__pw_func_12''),
                      (''props'', VObj [(''title'', VStr ''Save''), (''note'', VStr ''__pw_func_'')])])
   \<and> unwrapFunctions digits_to_number
         [(''onClick'', VStr ''__pw_func_12''),
          (''props'', VObj [(''title'', VStr ''Save''), (''note'', VStr ''__pw_func_'')])]
       = [(''onClick'', VFun (Dispatcher (IntNum 12))),
          (''props'', VObj [(''title'', VStr ''Save''), (''note'', VFun (Dispatcher (IntNum 0)))])]
   \<and> call_in_page (Dispatcher (IntNum 12)) [VStr ''x''] =
        Some (VUndefined, [CtDispatch (IntNum 12) [VStr ''x'']])"
  using unwrapFunctions_makes_closures
    [of "[(''onClick'', VStr ''__pw_func_12''),
          (''props'', VObj [(''title'', VStr ''Save''), (''note'', VStr ''__pw_func_'')])]"
        digits_to_number 12 "IntNum 12" "[VStr ''x'']"]
  by (simp add: pw_func_prefix_def digits_to_number_def decimal_value_def digit_value_def
        del: unwrapFunctions.simps)

subsection \<open>Mount, update and sessions\<close>

lemma wrap_callbacks:
  "snd (wrapFunctions es cbs) = cbs @ callables_entries es"
  "snd (wrapLoop entries object cbs) = cbs @ callables_entries entries"
proof (induction es cbs and entries object cbs
    rule: wrapFunctions_wrapLoop.induct
      [case_names entry finished callable nested undef nul boolean num str])
  case (nested key es entries object callbacks)
  obtain es' cbs' where w: "wrapFunctions es callbacks = (es', cbs')"
    by (cases "wrapFunctions es callbacks")
  with nested(1) have "cbs' = callbacks @ callables_entries es"
    by simp
  with nested(2) [OF w [symmetric]] w show ?case
    by simp
qed simp_all

lemma wrap_value_callbacks: "snd (wrap_value (VObj es) cbs) = cbs @ callables (VObj es)"
proof -
  obtain es' cbs' where w: "wrapFunctions es cbs = (es', cbs')"
    by (cases "wrapFunctions es cbs")
  with wrap_callbacks(1) [of es cbs] have "cbs' = cbs @ callables_entries es"
    by simp
  with w show ?thesis
    by (simp del: wrapFunctions.simps)
qed

lemma wrap_value_correct:
  "unique_keys (VObj es) \<Longrightarrow>
     wrap_value (VObj es) cbs = (with_tokens (length cbs) (VObj es), cbs @ callables (VObj es))"
  by (simp add: wrapFunctions_wrapLoop_correct(1) del: wrapFunctions.simps)

lemma get_prop_some_object:
  "get_prop v key = Inr t \<Longrightarrow> t \<noteq> VUndefined \<Longrightarrow> \<exists>es. v = VObj es"
  by (cases v) simp_all

lemma createComponent_object:
  assumes "createComponent r p = Inr c"
  shows "\<exists>es. c = VObj es"
proof (cases "get_prop r ''__pw_type'' = Inr (VStr ''jsx'')")
  case True
  with assms have "c = r" by (simp add: createComponent_def)
  with True get_prop_some_object [of r "''__pw_type''" "VStr ''jsx''"] show ?thesis by simp
next
  case False
  with assms show ?thesis
    by (auto simp: createComponent_def split: sum.splits)
qed

lemma update_script_state:
  "boundCallbacksForMount (fst (update_script rt c w)) = boundCallbacksForMount w"
  "document (fst (update_script rt c w)) = document w"
  "callback_calls (fst (update_script rt c w)) = callback_calls w"
  by (simp_all add: update_script_def Let_def split: sum.splits)

lemma mount_script_state:
  "boundCallbacksForMount (fst (mount_script rt c h w)) = boundCallbacksForMount w"
  "document (fst (mount_script rt c h w)) =
     (case getElementById (document w) ''root'' of Some r \<Rightarrow> document w | None \<Rightarrow> document w @ [''root''])"
  by (simp_all add: mount_script_def Let_def split: sum.splits option.splits)

lemma innerUpdate_document: "document (fst (innerUpdate rt r p w)) = document w"
  by (simp add: innerUpdate_def Let_def update_script_state split: sum.splits prod.splits)

lemma update_document: "document (fst (update rt r p w)) = document w"
  by (simp add: update_def innerUpdate_document)

lemma ct_dispatch_state:
  "document (fst (ct_dispatch ordinal args w)) = document w"
  "boundCallbacksForMount (fst (ct_dispatch ordinal args w)) = boundCallbacksForMount w"
  by (simp_all add: ct_dispatch_def split: option.splits)

lemma innerMount_document:
  "document (fst (innerMount rt r p w)) = document w \<or>
   getElementById (document w) ''root'' = None \<and>
     document (fst (innerMount rt r p w)) = document w @ [''root'']"
  by (auto simp add: innerMount_def Let_def mount_script_state split: sum.splits prod.splits option.splits)

lemma getElementById_None: "getElementById elements ident = None \<longleftrightarrow> ident \<notin> set elements"
  by (induction elements) auto

lemma run_updates_document:
  "document (run rt (map (\<lambda>(r, p). Update r p) updates) w) = document w"
  by (induction updates arbitrary: w) (auto simp: update_document)

lemma innerUpdate_callbacks:
  "boundCallbacksForMount (fst (innerUpdate rt r p w)) =
     boundCallbacksForMount w @
       (case createComponent r (default_options p) of Inl e \<Rightarrow> [] | Inr c \<Rightarrow> callables c)"
proof (cases "createComponent r (default_options p)")
  case (Inl e)
  then show ?thesis by (simp add: innerUpdate_def)
next
  case (Inr c)
  obtain wrapped cbs where wv: "wrap_value c (boundCallbacksForMount w) = (wrapped, cbs)"
    by (cases "wrap_value c (boundCallbacksForMount w)")
  from createComponent_object [OF Inr] obtain es where "c = VObj es" ..
  with wv have "cbs = boundCallbacksForMount w @ callables c"
    using wrap_value_callbacks [of es "boundCallbacksForMount w"] by simp
  with Inr wv show ?thesis
    by (simp add: innerUpdate_def update_script_state)
qed

lemma innerMount_callbacks:
  "boundCallbacksForMount (fst (innerMount rt r p w)) =
     boundCallbacksForMount w @
       (case createComponent r (default_options p) of Inl e \<Rightarrow> [] | Inr c \<Rightarrow> callables c)"
proof (cases "createComponent r (default_options p)")
  case (Inl e)
  then show ?thesis by (simp add: innerMount_def)
next
  case (Inr c)
  obtain wrapped cbs where wv: "wrap_value c (boundCallbacksForMount w) = (wrapped, cbs)"
    by (cases "wrap_value c (boundCallbacksForMount w)")
  from createComponent_object [OF Inr] obtain es where "c = VObj es" ..
  with wv have "cbs = boundCallbacksForMount w @ callables c"
    using wrap_value_callbacks [of es "boundCallbacksForMount w"] by simp
  with Inr wv show ?thesis
    by (simp add: innerMount_def Let_def mount_script_state split: sum.splits)
qed

lemma perform_prefix:
  "prefix (boundCallbacksForMount w) (boundCallbacksForMount (perform rt operation w))"
  by (cases operation) (simp_all add: innerMount_callbacks innerUpdate_callbacks update_def ct_dispatch_state)

lemma run_prefix:
  "prefix (boundCallbacksForMount w) (boundCallbacksForMount (run rt operations w))"
proof (induction operations arbitrary: w)
  case Nil
  show ?case by simp
next
  case (Cons operation operations)
  have "prefix (boundCallbacksForMount w) (boundCallbacksForMount (perform rt operation w))"
    by (rule perform_prefix)
  also have "prefix \<dots> (boundCallbacksForMount (run rt operations (perform rt operation w)))"
    by (rule Cons.IH)
  finally show ?case by simp
qed

lemma session_starts_empty:
  "boundCallbacksForMount w = [] \<Longrightarrow> s \<in> set (session_starts rt tests w) \<Longrightarrow>
     boundCallbacksForMount s = []"
proof (induction tests arbitrary: w)
  case Nil
  then show ?case by simp
next
  case (Cons test tests)
  obtain elements operations where t: "test = (elements, operations)" by (cases test)
  from Cons.prems(2) consider "s = open_page elements w"
    | "s \<in> set (session_starts rt tests (mount_fixture rt operations (open_page elements w)))"
    by (auto simp: t)
  then show ?case
  proof cases
    case 1
    with Cons.prems(1) show ?thesis by (simp add: open_page_def)
  next
    case 2
    have "boundCallbacksForMount (mount_fixture rt operations (open_page elements w)) = []"
      by (simp add: mount_fixture_def)
    from Cons.IH [OF this 2] show ?thesis .
  qed
qed

lemma getElementById_append_new:
  "ident \<notin> set elements \<Longrightarrow> getElementById (elements @ [ident]) ident = Some (length elements)"
  by (induction elements) auto

lemma update_script_calls:
  "\<exists>calls. framework_calls (fst (update_script rt c w)) = framework_calls w @ calls \<and>
     (\<forall>call \<in> set calls. call_root call = getElementById (document w) ''root'')"
  by (simp add: update_script_def Let_def split: sum.splits)

lemma update_calls:
  "\<exists>calls. framework_calls (fst (update rt r p w)) = framework_calls w @ calls \<and>
     (\<forall>call \<in> set calls. call_root call = getElementById (document w) ''root'')"
proof -
  have "\<exists>calls. framework_calls (fst (innerUpdate rt r' p' w)) = framework_calls w @ calls \<and>
     (\<forall>call \<in> set calls. call_root call = getElementById (document w) ''root'')" for r' p'
  proof (cases "createComponent r' (default_options p')")
    case (Inl e)
    then show ?thesis by (simp add: innerUpdate_def)
  next
    case (Inr c)
    obtain wrapped cbs where wv: "wrap_value c (boundCallbacksForMount w) = (wrapped, cbs)"
      by (cases "wrap_value c (boundCallbacksForMount w)")
    with Inr update_script_calls [of rt wrapped "w\<lparr>boundCallbacksForMount := cbs\<rparr>"]
    show ?thesis by (simp add: innerUpdate_def)
  qed
  then show ?thesis by (simp add: update_def)
qed

lemma mount_script_calls:
  "\<exists>calls. framework_calls (fst (mount_script rt c h w)) = framework_calls w @ calls \<and>
     (\<forall>call \<in> set calls.
        call_root call = getElementById (document (fst (mount_script rt c h w))) ''root'')"
proof (cases "getElementById (document w) ''root''")
  case None
  then have "''root'' \<notin> set (document w)" by (simp add: getElementById_None)
  then have "getElementById (document w @ [''root'']) ''root'' = Some (length (document w))"
    by (rule getElementById_append_new)
  with None show ?thesis
    by (simp add: mount_script_def Let_def split: sum.splits)
next
  case (Some r)
  then show ?thesis
    by (simp add: mount_script_def Let_def split: sum.splits)
qed

lemma innerMount_calls:
  "\<exists>calls. framework_calls (fst (innerMount rt r p w)) = framework_calls w @ calls \<and>
     (\<forall>call \<in> set calls.
        call_root call = getElementById (document (fst (innerMount rt r p w))) ''root'')"
proof (cases "createComponent r (default_options p)")
  case (Inl e)
  then show ?thesis by (simp add: innerMount_def)
next
  case (Inr c)
  obtain wrapped cbs where wv: "wrap_value c (boundCallbacksForMount w) = (wrapped, cbs)"
    by (cases "wrap_value c (boundCallbacksForMount w)")
  show ?thesis
  proof (cases "hooksConfig_of r (default_options p) wrapped")
    case (Inl e)
    with Inr wv show ?thesis by (simp add: innerMount_def)
  next
    case (Inr h)
    with \<open>createComponent r (default_options p) = Inr c\<close> wv
      mount_script_calls [of rt wrapped h "w\<lparr>boundCallbacksForMount := cbs\<rparr>"]
    show ?thesis by (simp add: innerMount_def)
  qed
qed

lemma run_updates_calls:
  "\<exists>calls. framework_calls (run rt (map (\<lambda>(r, p). Update r p) updates) w) = framework_calls w @ calls \<and>
     (\<forall>call \<in> set calls. call_root call = getElementById (document w) ''root'')"
proof (induction updates arbitrary: w)
  case Nil
  show ?case by simp
next
  case (Cons u updates)
  obtain r p where u: "u = (r, p)" by (cases u)
  let ?w1 = "fst (update rt r p w)"
  from update_calls [of rt r p w] obtain calls1 where
    c1: "framework_calls ?w1 = framework_calls w @ calls1"
      "\<forall>call \<in> set calls1. call_root call = getElementById (document w) ''root''"
    by blast
  from Cons.IH [of ?w1] obtain calls2 where
    c2: "framework_calls (run rt (map (\<lambda>(r, p). Update r p) updates) ?w1) = framework_calls ?w1 @ calls2"
      "\<forall>call \<in> set calls2. call_root call = getElementById (document ?w1) ''root''"
    by blast
  have "framework_calls (run rt (map (\<lambda>(r, p). Update r p) (u # updates)) w) =
          framework_calls w @ (calls1 @ calls2)"
    using c1(1) c2(1) by (simp add: u)
  moreover have "\<forall>call \<in> set (calls1 @ calls2). call_root call = getElementById (document w) ''root''"
    using c1(2) c2(2) by (auto simp: update_document)
  ultimately show ?case by blast
qed

lemma mount_then_updates_calls:
  "\<exists>calls. framework_calls (run rt (Mount componentRef options # map (\<lambda>(r, p). Update r p) updates) w) =
       framework_calls w @ calls \<and>
     (\<forall>call \<in> set calls. call_root call =
        getElementById
          (document (run rt (Mount componentRef options # map (\<lambda>(r, p). Update r p) updates) w))
          ''root'')"
proof -
  let ?w1 = "fst (innerMount rt componentRef options w)"
  let ?w2 = "run rt (map (\<lambda>(r, p). Update r p) updates) ?w1"
  from innerMount_calls [of rt componentRef options w] obtain calls1 where
    c1: "framework_calls ?w1 = framework_calls w @ calls1"
      "\<forall>call \<in> set calls1. call_root call = getElementById (document ?w1) ''root''"
    by blast
  from run_updates_calls [of rt updates ?w1] obtain calls2 where
    c2: "framework_calls ?w2 = framework_calls ?w1 @ calls2"
      "\<forall>call \<in> set calls2. call_root call = getElementById (document ?w1) ''root''"
    by blast
  have d: "document ?w2 = document ?w1"
    by (rule run_updates_document)
  have "framework_calls ?w2 = framework_calls w @ (calls1 @ calls2)"
    using c1(1) c2(1) by simp
  moreover have "\<forall>call \<in> set (calls1 @ calls2). call_root call = getElementById (document ?w2) ''root''"
    using c1(2) c2(2) d by auto
  ultimately show ?thesis by simp
qed

text \<open>
  C5. A mount followed by any number of updates leaves the document as it was or
  with one more element, the node with id \<open>root\<close>, and the latter only when the
  document had no such node; an update never changes the document; and every call
  of the framework made on the way was given the element that
  \<open>getElementById('root')\<close> finds in the document at the end.
\<close>

theorem mount_then_updates_one_root:
  assumes "w' = run rt (Mount componentRef options # map (\<lambda>(r, p). Update r p) updates) w"
  shows "(document w' = document w
          \<or> ''root'' \<notin> set (document w) \<and> document w' = document w @ [''root''])
       \<and> document (fst (update rt r p w)) = document w
       \<and> (\<exists>calls. framework_calls w' = framework_calls w @ calls \<and>
             (\<forall>call \<in> set calls. call_root call = getElementById (document w') ''root''))"
  unfolding assms
  using innerMount_document [of rt componentRef options w]
    mount_then_updates_calls [of rt componentRef options updates w]
  by (auto simp: run_updates_document update_document getElementById_None)

theorem mount_then_updates_one_root_witness:
  "''root'' \<notin> set (document (\<lparr>boundCallbacksForMount = [Fn 7], callback_calls = [], document = [''app''],
        framework_calls = []\<rparr>))
   \<and> document (run (\<lparr>unary_plus = digits_to_number, resolveImports = Inr\<rparr>) [Mount (VObj [(''__pw_type'', VStr ''importRef''), (''id'', VStr ''Button'')]) (VObj [(''props'', VObj [(''onClick'', VFun (Fn 3))])]),
         Update (VObj [(''__pw_type'', VStr ''importRef''), (''id'', VStr ''Button'')]) (VObj [(''props'', VObj [(''onClick'', VFun (Fn 4))])]),
         Update (VObj [(''__pw_type'', VStr ''importRef''), (''id'', VStr ''Button'')]) VUndefined] (\<lparr>boundCallbacksForMount = [Fn 7], callback_calls = [], document = [''app''],
        framework_calls = []\<rparr>)) = [''app'', ''root'']
   \<and> map call_root (framework_calls (run (\<lparr>unary_plus = digits_to_number, resolveImports = Inr\<rparr>) [Mount (VObj [(''__pw_type'', VStr ''importRef''), (''id'', VStr ''Button'')]) (VObj [(''props'', VObj [(''onClick'', VFun (Fn 3))])]),
         Update (VObj [(''__pw_type'', VStr ''importRef''), (''id'', VStr ''Button'')]) (VObj [(''props'', VObj [(''onClick'', VFun (Fn 4))])]),
         Update (VObj [(''__pw_type'', VStr ''importRef''), (''id'', VStr ''Button'')]) VUndefined] (\<lparr>boundCallbacksForMount = [Fn 7], callback_calls = [], document = [''app''],
        framework_calls = []\<rparr>))) = [Some 1, Some 1, Some 1]"
  using mount_then_updates_one_root
    [OF refl, of "\<lparr>unary_plus = digits_to_number, resolveImports = Inr\<rparr>" "VObj [(''__pw_type'', VStr ''importRef''), (''id'', VStr ''Button'')]" "VObj [(''props'', VObj [(''onClick'', VFun (Fn 3))])]"
        "[(VObj [(''__pw_type'', VStr ''importRef''), (''id'', VStr ''Button'')], VObj [(''props'', VObj [(''onClick'', VFun (Fn 4))])]), (VObj [(''__pw_type'', VStr ''importRef''), (''id'', VStr ''Button'')], VUndefined)]"
        "\<lparr>boundCallbacksForMount = [Fn 7], callback_calls = [], document = [''app''],
        framework_calls = []\<rparr>"]
  by (simp add: update_def innerUpdate_def update_script_def innerMount_def createComponent_def
        spread_def set_prop_def is_array_index_def default_options_def Let_def hooksConfig_of_def mount_script_def)

lemma isJsxComponent_iff:
  "isJsxComponent v \<longleftrightarrow> get_prop v ''__pw_type'' = Inr (VStr ''jsx'')"
  by (cases v) (auto split: option.splits)

lemma update_innerUpdate:
  "update rt componentRef options w =
     innerUpdate rt
       (if get_prop options ''__pw_type'' = Inr (VStr ''jsx'') then options else componentRef)
       (if get_prop options ''__pw_type'' = Inr (VStr ''jsx'') then VUndefined else options) w"
  by (simp add: update_def isJsxComponent_iff)

lemma innerUpdate_marshals:
  assumes "createComponent r (default_options p) = Inr c" and "unique_keys c"
  shows "innerUpdate rt r p w =
           update_script rt (with_tokens (length (boundCallbacksForMount w)) c)
             (w\<lparr>boundCallbacksForMount := boundCallbacksForMount w @ callables c\<rparr>)"
proof -
  from assms(1) obtain es where "c = VObj es"
    using createComponent_object by blast
  with assms show ?thesis
    by (simp add: innerUpdate_def wrap_value_correct del: wrap_value.simps)
qed

text \<open>
  C6, as stated: the start of a session with the empty array keeps the tokens of a
  previous session from referring to entries of the new one. The ordinals are
  given out from 0 again: after the second session has mounted a component with a
  callback, the ordinal 0, which the first session gave to its own callback,
  reaches the callback of the second session.
\<close>

theorem stale_token_counterexample:
  "boundCallbacksForMount
     (run sample_runtime [Mount button_ref (VObj [(''props'', VObj [(''onClick'', VFun (Fn 3))])])]
        (open_page [''root''] module_loaded)) = [Fn 3]
   \<and> callback_calls
       (run sample_runtime
          [Mount button_ref (VObj [(''props'', VObj [(''onClick'', VFun (Fn 9))])]),
           Dispatch (IntNum 0) []]
          (open_page [''root'']
             (mount_fixture sample_runtime
                [Mount button_ref (VObj [(''props'', VObj [(''onClick'', VFun (Fn 3))])])]
                (open_page [''root''] module_loaded)))) = [(Fn 9, [])]"
  by (simp add: innerMount_def hooksConfig_of_def mount_script_def Let_def createComponent_def
        spread_def set_prop_def is_array_index_def default_options_def module_loaded_def
        open_page_def mount_fixture_def ct_dispatch_def)

text \<open>
  C6, amended. The array only grows at its end. After a call of \<open>update\<close> the old
  array is a prefix of the new one; the functions of the descriptor that the call
  builds follow the old array, in the order of the traversal, and the descriptor
  sent carries the tokens of these new ordinals. The old array is a prefix of the
  new one over every sequence of operations of a session. Every session of the
  fixture of a worker begins with the empty array, so that at that point
  \<open>__ct_dispatch\<close> fails for every ordinal, those of the tokens of a previous session
  among them.
\<close>

theorem registry_append_only:
  assumes "r = (if get_prop options ''__pw_type'' = Inr (VStr ''jsx'') then options else componentRef)"
    and "p = (if get_prop options ''__pw_type'' = Inr (VStr ''jsx'') then VUndefined else options)"
  shows "prefix (boundCallbacksForMount w) (boundCallbacksForMount (fst (update rt componentRef options w)))
   \<and> (createComponent r (default_options p) = Inr c \<longrightarrow>
        boundCallbacksForMount (fst (update rt componentRef options w)) =
          boundCallbacksForMount w @ callables c)
   \<and> (createComponent r (default_options p) = Inr c \<and> unique_keys c \<longrightarrow>
        update rt componentRef options w =
          update_script rt (with_tokens (length (boundCallbacksForMount w)) c)
            (w\<lparr>boundCallbacksForMount := boundCallbacksForMount w @ callables c\<rparr>))
   \<and> (createComponent r' (default_options p') = Inr c' \<longrightarrow>
        boundCallbacksForMount (fst (innerUpdate rt r' p' w)) = boundCallbacksForMount w @ callables c')
   \<and> (createComponent r' (default_options p') = Inr c' \<and> unique_keys c' \<longrightarrow>
        innerUpdate rt r' p' w =
          update_script rt (with_tokens (length (boundCallbacksForMount w)) c')
            (w\<lparr>boundCallbacksForMount := boundCallbacksForMount w @ callables c'\<rparr>))
   \<and> prefix (boundCallbacksForMount w) (boundCallbacksForMount (run rt operations w))
   \<and> (\<forall>s \<in> set (session_starts rt tests module_loaded).
        boundCallbacksForMount s = [] \<and> ct_dispatch ordinal args s = (s, Inl TypeError))"
proof -
  have u: "update rt componentRef options w = innerUpdate rt r p w"
    unfolding assms by (rule update_innerUpdate)
  have "prefix (boundCallbacksForMount w) (boundCallbacksForMount (fst (update rt componentRef options w)))"
    using perform_prefix [of w rt "Update componentRef options"] by simp
  moreover have "createComponent r (default_options p) = Inr c \<longrightarrow>
        boundCallbacksForMount (fst (update rt componentRef options w)) =
          boundCallbacksForMount w @ callables c"
    by (simp add: u innerUpdate_callbacks)
  moreover have "createComponent r (default_options p) = Inr c \<and> unique_keys c \<longrightarrow>
        update rt componentRef options w =
          update_script rt (with_tokens (length (boundCallbacksForMount w)) c)
            (w\<lparr>boundCallbacksForMount := boundCallbacksForMount w @ callables c\<rparr>)"
    using innerUpdate_marshals [of r p c rt w] by (simp add: u)
  moreover have "createComponent r' (default_options p') = Inr c' \<longrightarrow>
        boundCallbacksForMount (fst (innerUpdate rt r' p' w)) = boundCallbacksForMount w @ callables c'"
    by (simp add: innerUpdate_callbacks)
  moreover have "createComponent r' (default_options p') = Inr c' \<and> unique_keys c' \<longrightarrow>
        innerUpdate rt r' p' w =
          update_script rt (with_tokens (length (boundCallbacksForMount w)) c')
            (w\<lparr>boundCallbacksForMount := boundCallbacksForMount w @ callables c'\<rparr>)"
    using innerUpdate_marshals [of r' p' c' rt w] by simp
  moreover have "\<forall>s \<in> set (session_starts rt tests module_loaded).
        boundCallbacksForMount s = [] \<and> ct_dispatch ordinal args s = (s, Inl TypeError)"
  proof
    fix s assume "s \<in> set (session_starts rt tests module_loaded)"
    then have e: "boundCallbacksForMount s = []"
      using session_starts_empty [of module_loaded s rt tests] by (simp add: module_loaded_def)
    then have "array_get (boundCallbacksForMount s) ordinal = None"
      by (cases ordinal) simp_all
    with e show "boundCallbacksForMount s = [] \<and> ct_dispatch ordinal args s = (s, Inl TypeError)"
      by (simp add: ct_dispatch_def)
  qed
  ultimately show ?thesis
    using run_prefix [of w rt operations] by blast
qed

theorem registry_append_only_witness:
  "createComponent render_ref (default_options indexed_options) =
     Inr (VObj [(''0'', VFun (Fn 2)), (''__pw_type'', VStr ''object-component''),
                (''type'', render_ref), (''props'', VObj [(''onClick'', VFun (Fn 3))])])
   \<and> unique_keys
        (VObj [(''0'', VFun (Fn 2)), (''__pw_type'', VStr ''object-component''),
               (''type'', render_ref), (''props'', VObj [(''onClick'', VFun (Fn 3))])])
   \<and> update sample_runtime render_ref indexed_options
        \<lparr>boundCallbacksForMount = [Fn 7], callback_calls = [], document = [''root''],
          framework_calls = []\<rparr> =
        (\<lparr>boundCallbacksForMount = [Fn 7, Fn 2, Fn 1, Fn 3], callback_calls = [],
          document = [''root''],
          framework_calls =
            [PlaywrightUpdate (Some 0)
               (VObj [(''0'', VFun (Dispatcher (IntNum 1))),
                      (''__pw_type'', VStr ''object-component''),
                      (''type'', VObj [(''__pw_type'', VStr ''importRef''), (''id'', VStr ''Button''),
                                       (''render'', VFun (Dispatcher (IntNum 2)))]),
                      (''props'', VObj [(''onClick'', VFun (Dispatcher (IntNum 3)))])])]\<rparr>,
         Inr ())
   \<and> boundCallbacksForMount
        (run sample_runtime [Mount render_ref indexed_options] (open_page [''root''] module_loaded)) =
        [Fn 2, Fn 1, Fn 3]
   \<and> session_starts sample_runtime
        [([''root''], [Mount render_ref indexed_options]), ([''root''], [])] module_loaded =
        [\<lparr>boundCallbacksForMount = [], callback_calls = [], document = [''root''],
           framework_calls = []\<rparr>,
         \<lparr>boundCallbacksForMount = [], callback_calls = [], document = [''root''],
           framework_calls = []\<rparr>]
   \<and> ct_dispatch (IntNum 0) []
        \<lparr>boundCallbacksForMount = [], callback_calls = [], document = [''root''],
          framework_calls = []\<rparr> =
        (\<lparr>boundCallbacksForMount = [], callback_calls = [], document = [''root''],
           framework_calls = []\<rparr>, Inl TypeError)"
  using registry_append_only
    [OF refl refl, of
        "\<lparr>boundCallbacksForMount = [Fn 7], callback_calls = [], document = [''root''],
          framework_calls = []\<rparr>"
        sample_runtime render_ref indexed_options
        "VObj [(''0'', VFun (Fn 2)), (''__pw_type'', VStr ''object-component''),
               (''type'', render_ref), (''props'', VObj [(''onClick'', VFun (Fn 3))])]"
        render_ref indexed_options
        "VObj [(''0'', VFun (Fn 2)), (''__pw_type'', VStr ''object-component''),
               (''type'', render_ref), (''props'', VObj [(''onClick'', VFun (Fn 3))])]"
        "[]" "[([''root''], [Mount render_ref indexed_options]), ([''root''], [])]"
        "IntNum 0" "[]"]
  by (simp add: update_script_def innerMount_def hooksConfig_of_def
        mount_script_def Let_def createComponent_def spread_def set_prop_def is_array_index_def
        default_options_def module_loaded_def open_page_def mount_fixture_def token_def
        pw_func_prefix_def decimal.simps digit_char_def digits_to_number_def decimal_value_def
        digit_value_def)

text \<open>
  C9, as stated: an options-only patch makes \<open>update\<close> reuse the reference of the mount
  and rebuild it with the patch options. On the handle of a mount of a declarative
  component, \<open>createComponent\<close> returns that component and ignores the options: the
  mounted descriptor is sent again and the patch is dropped.
\<close>

theorem update_patch_on_jsx_counterexample:
  "get_prop (VObj [(''props'', VObj [(''title'', VStr ''New'')])]) ''__pw_type'' \<noteq> Inr (VStr ''jsx'')
   \<and> update sample_runtime
        (VObj [(''__pw_type'', VStr ''jsx''), (''type'', VStr ''button''),
               (''props'', VObj [(''title'', VStr ''Old'')])])
        (VObj [(''props'', VObj [(''title'', VStr ''New'')])])
        \<lparr>boundCallbacksForMount = [], callback_calls = [], document = [''root''],
          framework_calls = []\<rparr> =
        (\<lparr>boundCallbacksForMount = [], callback_calls = [], document = [''root''],
          framework_calls =
            [PlaywrightUpdate (Some 0)
               (VObj [(''__pw_type'', VStr ''jsx''), (''type'', VStr ''button''),
                      (''props'', VObj [(''title'', VStr ''Old'')])])]\<rparr>,
         Inr ())"
  by (simp add: update_def innerUpdate_def update_script_def Let_def createComponent_def
        default_options_def pw_func_prefix_def set_prop_def)

text \<open>
  C9, amended. \<open>update\<close> takes a declarative (jsx) component, and then the descriptor
  sent is that component, whatever was mounted; or it takes options. With options,
  when the mounted reference is no declarative component, the descriptor sent is
  the object component of that reference with the options spread over it; when
  the mounted reference is a declarative component, the descriptor sent is that
  component and the options are ignored. In every case the script of update runs
  with the marshalled descriptor: the document is not changed, and when the
  imports resolve \<open>playwrightUpdate\<close> is called once, with the element that
  \<open>getElementById('root')\<close> finds and the resolved component.
\<close>

theorem update_descriptor_or_patch:
  assumes "get_prop options ''__pw_type'' = Inr (VStr ''jsx'')
           \<or> get_prop componentRef ''__pw_type'' = Inr t"
    and "descriptor =
           (if get_prop options ''__pw_type'' = Inr (VStr ''jsx'') then options
            else if t = VStr ''jsx'' then componentRef
            else VObj (spread [(''__pw_type'', VStr ''object-component''), (''type'', componentRef)]
                         (default_options options)))"
  shows "update rt componentRef options w =
           update_script rt (fst (wrap_value descriptor (boundCallbacksForMount w)))
             (w\<lparr>boundCallbacksForMount := snd (wrap_value descriptor (boundCallbacksForMount w))\<rparr>)
         \<and> document (fst (update rt componentRef options w)) = document w
         \<and> (resolveImports rt (unwrap_value (unary_plus rt)
                (fst (wrap_value descriptor (boundCallbacksForMount w)))) = Inr resolved \<longrightarrow>
              framework_calls (fst (update rt componentRef options w)) =
                framework_calls w @ [PlaywrightUpdate (getElementById (document w) ''root'') resolved])"
proof -
  let ?jsx = "get_prop options ''__pw_type'' = Inr (VStr ''jsx'')"
  have built: "createComponent (if ?jsx then options else componentRef)
                 (default_options (if ?jsx then VUndefined else options)) = Inr descriptor"
  proof (cases ?jsx)
    case True
    with assms(2) show ?thesis by (simp add: createComponent_def)
  next
    case False
    with assms show ?thesis by (auto simp: createComponent_def default_options_def)
  qed
  have u: "update rt componentRef options w =
           update_script rt (fst (wrap_value descriptor (boundCallbacksForMount w)))
             (w\<lparr>boundCallbacksForMount := snd (wrap_value descriptor (boundCallbacksForMount w))\<rparr>)"
    using built by (simp add: update_innerUpdate innerUpdate_def split: prod.splits if_splits)
  show ?thesis
    unfolding u by (simp add: update_script_def Let_def split: sum.splits)
qed

theorem update_descriptor_or_patch_witness:
  "get_prop (VObj [(''__pw_type'', VStr ''jsx''), (''type'', VStr ''a''),
                   (''props'', VObj [(''onClick'', VFun (Fn 5))])]) ''__pw_type'' = Inr (VStr ''jsx'')
   \<and> update sample_runtime button_ref
        (VObj [(''__pw_type'', VStr ''jsx''), (''type'', VStr ''a''),
               (''props'', VObj [(''onClick'', VFun (Fn 5))])])
        \<lparr>boundCallbacksForMount = [Fn 7], callback_calls = [], document = [''root''],
          framework_calls = []\<rparr> =
        (\<lparr>boundCallbacksForMount = [Fn 7, Fn 5], callback_calls = [], document = [''root''],
          framework_calls =
            [PlaywrightUpdate (Some 0)
               (VObj [(''__pw_type'', VStr ''jsx''), (''type'', VStr ''a''),
                      (''props'', VObj [(''onClick'', VFun (Dispatcher (IntNum 1)))])])]\<rparr>,
         Inr ())
   \<and> get_prop (VObj [(''props'', VObj [(''count'', VNum (IntNum 1)), (''onClick'', VFun (Fn 4))])])
        ''__pw_type'' \<noteq> Inr (VStr ''jsx'')
   \<and> get_prop button_ref ''__pw_type'' = Inr (VStr ''importRef'')
   \<and> update sample_runtime button_ref
        (VObj [(''props'', VObj [(''count'', VNum (IntNum 1)), (''onClick'', VFun (Fn 4))])])
        \<lparr>boundCallbacksForMount = [Fn 7], callback_calls = [], document = [''root''],
          framework_calls = []\<rparr> =
        (\<lparr>boundCallbacksForMount = [Fn 7, Fn 4], callback_calls = [], document = [''root''],
          framework_calls =
            [PlaywrightUpdate (Some 0)
               (VObj [(''__pw_type'', VStr ''object-component''), (''type'', button_ref),
                      (''props'', VObj [(''count'', VNum (IntNum 1)),
                                        (''onClick'', VFun (Dispatcher (IntNum 1)))])])]\<rparr>,
         Inr ())"
  using update_descriptor_or_patch
    [OF _ refl, of
        "VObj [(''__pw_type'', VStr ''jsx''), (''type'', VStr ''a''),
               (''props'', VObj [(''onClick'', VFun (Fn 5))])]"
        button_ref "VStr ''importRef''" sample_runtime
        "\<lparr>boundCallbacksForMount = [Fn 7], callback_calls = [], document = [''root''],
          framework_calls = []\<rparr>"]
    update_descriptor_or_patch
    [OF _ refl, of
        "VObj [(''props'', VObj [(''count'', VNum (IntNum 1)), (''onClick'', VFun (Fn 4))])]"
        button_ref "VStr ''importRef''" sample_runtime
        "\<lparr>boundCallbacksForMount = [Fn 7], callback_calls = [], document = [''root''],
          framework_calls = []\<rparr>"]
  by (simp add: spread_def set_prop_def is_array_index_def default_options_def update_script_def
        Let_def token_def pw_func_prefix_def decimal.simps digit_char_def digits_to_number_def
        decimal_value_def digit_value_def)

subsection \<open>Round trip\<close>

text \<open>
  A token written by marshalling comes back: in the page it becomes a closure, a
  call of the closure reaches \<open>__ct_dispatch\<close> with the ordinal and the arguments,
  and \<open>__ct_dispatch\<close> calls the function stored under the ordinal. The only fact
  about unary plus that is needed is that it reads the decimal numeral of the
  ordinal as that ordinal, which \<open>digits_to_number\<close> does.
\<close>

lemma token_round_trip:
  assumes "n < length (boundCallbacksForMount w)"
    and "to_number (decimal n) = IntNum (int n)"
  shows "with_closures to_number (VStr (token n)) = VFun (Dispatcher (IntNum (int n)))"
    and "call_in_page (Dispatcher (IntNum (int n))) args =
           Some (VUndefined, [CtDispatch (IntNum (int n)) args])"
    and "ct_dispatch (IntNum (int n)) args w =
           (w\<lparr>callback_calls := callback_calls w @ [(boundCallbacksForMount w ! n, args)]\<rparr>, Inr ())"
  using assms by (simp_all add: prefix_token drop_prefix_token ct_dispatch_def)

end
